theory Spec2Isabelle
  imports Main "HOL-Library.Word"
begin

unbundle bit_operations_syntax

section \<open>SSD1306 OLED driver: data model\<close>

text \<open>
  The driver (\<^verbatim>\<open>ssd1306.c\<close> with its header) keeps a packed 128x64 framebuffer in
  an \<^verbatim>\<open>oled_device_t\<close> and talks to the controller through the Pico SDK call
  \<^verbatim>\<open>i2c_write_blocking\<close>. Coordinates, commands and buffer bytes are
  \<^verbatim>\<open>uint8_t\<close>; loop counters and the scan-conversion variables are C \<^verbatim>\<open>int\<close>
  whose values stay far below \<open>2 ^ 31\<close>, so they are modelled as \<open>int\<close>.
\<close>

type_synonym u8 = "8 word"

abbreviation (input) OLED_SCREEN_WIDTH :: nat where "OLED_SCREEN_WIDTH \<equiv> 128"
abbreviation (input) OLED_SCREEN_HEIGHT :: nat where "OLED_SCREEN_HEIGHT \<equiv> 64"
abbreviation (input) OLED_MEMORY_PAGES :: nat where "OLED_MEMORY_PAGES \<equiv> OLED_SCREEN_HEIGHT div 8"
abbreviation (input) OLED_VIDEO_BUFFER_SIZE :: nat where
  "OLED_VIDEO_BUFFER_SIZE \<equiv> OLED_SCREEN_WIDTH * OLED_MEMORY_PAGES"

abbreviation (input) OLED_CMD_CONTROL_BYTE :: u8 where "OLED_CMD_CONTROL_BYTE \<equiv> 0x00"
abbreviation (input) OLED_DATA_CONTROL_BYTE :: u8 where "OLED_DATA_CONTROL_BYTE \<equiv> 0x40"
abbreviation (input) OLED_DEFAULT_BRIGHTNESS :: u8 where "OLED_DEFAULT_BRIGHTNESS \<equiv> 0xCF"

abbreviation (input) CMD_DISPLAY_ACTIVATE :: u8 where "CMD_DISPLAY_ACTIVATE \<equiv> 0xAF"
abbreviation (input) CMD_DISPLAY_DEACTIVATE :: u8 where "CMD_DISPLAY_DEACTIVATE \<equiv> 0xAE"
abbreviation (input) CMD_DISPLAY_NORMAL :: u8 where "CMD_DISPLAY_NORMAL \<equiv> 0xA6"
abbreviation (input) CMD_DISPLAY_INVERT :: u8 where "CMD_DISPLAY_INVERT \<equiv> 0xA7"
abbreviation (input) CMD_DISPLAY_FROM_RAM :: u8 where "CMD_DISPLAY_FROM_RAM \<equiv> 0xA4"
abbreviation (input) CMD_SET_BRIGHTNESS :: u8 where "CMD_SET_BRIGHTNESS \<equiv> 0x81"
abbreviation (input) CMD_SET_OSC_FREQUENCY :: u8 where "CMD_SET_OSC_FREQUENCY \<equiv> 0xD5"
abbreviation (input) CMD_SET_MULTIPLEX_RATIO :: u8 where "CMD_SET_MULTIPLEX_RATIO \<equiv> 0xA8"
abbreviation (input) CMD_SET_VERTICAL_OFFSET :: u8 where "CMD_SET_VERTICAL_OFFSET \<equiv> 0xD3"
abbreviation (input) CMD_SET_DISPLAY_START_LINE :: u8 where "CMD_SET_DISPLAY_START_LINE \<equiv> 0x40"
abbreviation (input) CMD_CHARGE_PUMP_CONTROL :: u8 where "CMD_CHARGE_PUMP_CONTROL \<equiv> 0x8D"
abbreviation (input) CMD_COM_PINS_CONFIG :: u8 where "CMD_COM_PINS_CONFIG \<equiv> 0xDA"
abbreviation (input) CMD_VCOM_DETECTION_LEVEL :: u8 where "CMD_VCOM_DETECTION_LEVEL \<equiv> 0xDB"
abbreviation (input) CMD_PRECHARGE_PERIOD :: u8 where "CMD_PRECHARGE_PERIOD \<equiv> 0xD9"
abbreviation (input) CMD_MEMORY_ADDRESSING_MODE :: u8 where "CMD_MEMORY_ADDRESSING_MODE \<equiv> 0x20"
abbreviation (input) CMD_COLUMN_ADDRESS_RANGE :: u8 where "CMD_COLUMN_ADDRESS_RANGE \<equiv> 0x21"
abbreviation (input) CMD_PAGE_ADDRESS_RANGE :: u8 where "CMD_PAGE_ADDRESS_RANGE \<equiv> 0x22"
abbreviation (input) CMD_SEGMENT_REMAP_FLIPPED :: u8 where "CMD_SEGMENT_REMAP_FLIPPED \<equiv> 0xA1"
abbreviation (input) CMD_COM_SCAN_DESCENDING :: u8 where "CMD_COM_SCAN_DESCENDING \<equiv> 0xC8"

text \<open>
  \<^verbatim>\<open>oled_device_t\<close>. The bus handle \<^verbatim>\<open>i2c_inst_t *\<close> is opaque to the driver and
  is kept as a number naming the bus. \<^verbatim>\<open>video_memory\<close> is a C array of exactly
  \<^verbatim>\<open>OLED_VIDEO_BUFFER_SIZE\<close> bytes: a list whose length is fixed by the
  invariant \<open>device_ok\<close>.
\<close>

record oled_device =
  i2c_interface :: nat
  device_address :: u8
  screen_width :: u8
  screen_height :: u8
  video_memory :: "u8 list"
  power_state :: bool
  contrast_level :: u8
  inverted_colors :: bool

definition device_ok :: "oled_device \<Rightarrow> bool" where
  "device_ok d = (length (video_memory d) = OLED_VIDEO_BUFFER_SIZE)"

subsection \<open>The platform: bus, heap and clock\<close>

text \<open>
  Everything outside the driver is one record threaded through the calls.
  \<open>wire\<close> logs every frame handed to \<^verbatim>\<open>i2c_write_blocking\<close> (bus, address,
  bytes), oldest first. \<open>respond\<close> is the transport's behaviour: the value the SDK
  call returns (bytes accepted, or a negative error code) for a frame, given the
  frames sent before it. \<open>heap_ok n\<close> says whether the \<open>n\<close>-th \<^verbatim>\<open>malloc\<close>
  succeeds, \<open>allocs\<close> counts the calls so far, and \<open>slept_ms\<close> sums the arguments
  of \<^verbatim>\<open>sleep_ms\<close>.
\<close>

type_synonym i2c_frame = "nat \<times> u8 \<times> u8 list"

record platform =
  respond :: "i2c_frame list \<Rightarrow> i2c_frame \<Rightarrow> int"
  wire :: "i2c_frame list"
  heap_ok :: "nat \<Rightarrow> bool"
  allocs :: nat
  slept_ms :: nat

definition i2c_write_blocking :: "platform \<Rightarrow> nat \<Rightarrow> u8 \<Rightarrow> u8 list \<Rightarrow> int \<times> platform" where
  "i2c_write_blocking p bus addr bytes =
     (respond p (wire p) (bus, addr, bytes), p\<lparr>wire := wire p @ [(bus, addr, bytes)]\<rparr>)"

definition sleep_ms :: "platform \<Rightarrow> nat \<Rightarrow> platform" where
  "sleep_ms p ms = p\<lparr>slept_ms := slept_ms p + ms\<rparr>"

section \<open>Transport framing\<close>

text \<open>
  Every function that receives the \<^verbatim>\<open>oled_device_t *\<close> returns the device next to
  its result, so that what a call does to the device is a statement about its
  result and not a property of the function's type.
\<close>

definition transmit_command :: "oled_device \<Rightarrow> platform \<Rightarrow> u8 \<Rightarrow> bool \<times> oled_device \<times> platform" where
  "transmit_command device p command_byte =
     (let transmission_buffer = [OLED_CMD_CONTROL_BYTE, command_byte];
          (transfer_result, p') =
             i2c_write_blocking p (i2c_interface device) (device_address device)
               (take 2 transmission_buffer)
      in (transfer_result = 2, device, p'))"

text \<open>The loop over \<^verbatim>\<open>command_array\<close> drops every status it gets.\<close>

fun transmit_command_sequence :: "oled_device \<Rightarrow> platform \<Rightarrow> u8 list \<Rightarrow> oled_device \<times> platform" where
  "transmit_command_sequence device p [] = (device, p)"
| "transmit_command_sequence device p (c # cs) =
     (case transmit_command device p c of
        (_, device', p') \<Rightarrow> transmit_command_sequence device' p' cs)"

definition transfer_video_data ::
  "oled_device \<Rightarrow> platform \<Rightarrow> u8 list \<Rightarrow> nat \<Rightarrow> bool \<times> oled_device \<times> platform" where
  "transfer_video_data device p data_ptr data_length =
     (let p1 = p\<lparr>allocs := allocs p + 1\<rparr> in
      if \<not> heap_ok p (allocs p) then (False, device, p1)
      else
        let transfer_buffer = OLED_DATA_CONTROL_BYTE # take data_length data_ptr;
            (transfer_result, p2) =
               i2c_write_blocking p1 (i2c_interface device) (device_address device)
                 (take (data_length + 1) transfer_buffer)
        in (transfer_result = int (data_length + 1), device, p2))"

section \<open>Framebuffer and lifecycle\<close>

definition oled_clear_screen :: "oled_device \<Rightarrow> oled_device" where
  "oled_clear_screen device = device\<lparr>video_memory := replicate OLED_VIDEO_BUFFER_SIZE 0x00\<rparr>"

definition oled_fill_screen :: "oled_device \<Rightarrow> u8 \<Rightarrow> oled_device" where
  "oled_fill_screen device fill_pattern =
     device\<lparr>video_memory := replicate OLED_VIDEO_BUFFER_SIZE fill_pattern\<rparr>"

definition startup_sequence :: "u8 list" where
  "startup_sequence =
     [CMD_DISPLAY_DEACTIVATE,
      CMD_SET_OSC_FREQUENCY, 0x80,
      CMD_SET_MULTIPLEX_RATIO, 0x3F,
      CMD_SET_VERTICAL_OFFSET, 0x00,
      CMD_SET_DISPLAY_START_LINE OR 0x00,
      CMD_CHARGE_PUMP_CONTROL, 0x14,
      CMD_MEMORY_ADDRESSING_MODE, 0x00,
      CMD_SEGMENT_REMAP_FLIPPED,
      CMD_COM_SCAN_DESCENDING,
      CMD_COM_PINS_CONFIG, 0x12,
      CMD_SET_BRIGHTNESS, 0xCF,
      CMD_PRECHARGE_PERIOD, 0xF1,
      CMD_VCOM_DETECTION_LEVEL, 0x40,
      CMD_DISPLAY_FROM_RAM,
      CMD_DISPLAY_NORMAL,
      CMD_DISPLAY_ACTIVATE]"

definition oled_initialize_display ::
  "oled_device \<Rightarrow> platform \<Rightarrow> nat \<Rightarrow> u8 \<Rightarrow> bool \<times> oled_device \<times> platform" where
  "oled_initialize_display device p i2c_bus address =
     (let d1 = device\<lparr>i2c_interface := i2c_bus,
                      device_address := address,
                      screen_width := of_nat OLED_SCREEN_WIDTH,
                      screen_height := of_nat OLED_SCREEN_HEIGHT,
                      power_state := True,
                      contrast_level := OLED_DEFAULT_BRIGHTNESS,
                      inverted_colors := False\<rparr>;
          d2 = oled_clear_screen d1;
          (d3, p') = transmit_command_sequence d2 p startup_sequence
      in (True, d3, p'))"

definition display_window_config :: "u8 list" where
  "display_window_config =
     [CMD_COLUMN_ADDRESS_RANGE, 0x00, 0x7F,
      CMD_PAGE_ADDRESS_RANGE, 0x00, 0x07]"

definition oled_refresh_screen :: "oled_device \<Rightarrow> platform \<Rightarrow> bool \<times> oled_device \<times> platform" where
  "oled_refresh_screen device p =
     (case transmit_command_sequence device p display_window_config of
        (device', p') \<Rightarrow>
          transfer_video_data device' p' (video_memory device') OLED_VIDEO_BUFFER_SIZE)"

section \<open>Pixel access\<close>

text \<open>
  \<^verbatim>\<open>buffer_index\<close> is at most \<open>255 + 31 * 128\<close>, so the \<^verbatim>\<open>uint16_t\<close> it is
  stored in never truncates it. \<^verbatim>\<open>1 << (y_pos & 0x07)\<close> is at most 128 and fits
  the \<^verbatim>\<open>uint8_t\<close>.
\<close>

definition oled_draw_pixel :: "oled_device \<Rightarrow> u8 \<Rightarrow> u8 \<Rightarrow> bool \<Rightarrow> oled_device" where
  "oled_draw_pixel device x_pos y_pos pixel_on =
     (if unat x_pos \<ge> OLED_SCREEN_WIDTH \<or> unat y_pos \<ge> OLED_SCREEN_HEIGHT then device
      else
        let buffer_index = unat x_pos + unat (drop_bit 3 y_pos) * OLED_SCREEN_WIDTH;
            bit_position = (push_bit (unat (y_pos AND 0x07)) 1 :: u8)
        in if pixel_on
           then device\<lparr>video_memory :=
                  (video_memory device)[buffer_index := video_memory device ! buffer_index OR bit_position]\<rparr>
           else device\<lparr>video_memory :=
                  (video_memory device)[buffer_index := video_memory device ! buffer_index AND NOT bit_position]\<rparr>)"

definition oled_read_pixel :: "oled_device \<Rightarrow> u8 \<Rightarrow> u8 \<Rightarrow> bool" where
  "oled_read_pixel device x_pos y_pos =
     (if unat x_pos \<ge> OLED_SCREEN_WIDTH \<or> unat y_pos \<ge> OLED_SCREEN_HEIGHT then False
      else
        let buffer_index = unat x_pos + unat (drop_bit 3 y_pos) * OLED_SCREEN_WIDTH;
            bit_position = (push_bit (unat (y_pos AND 0x07)) 1 :: u8)
        in (video_memory device ! buffer_index) AND bit_position \<noteq> 0)"


text \<open>Where a pixel lives: the byte index computed by both pixel routines.\<close>

definition pixel_index :: "u8 \<Rightarrow> u8 \<Rightarrow> nat" where
  "pixel_index x y = unat x + unat y div 8 * OLED_SCREEN_WIDTH"

section \<open>Geometry\<close>








text \<open>
  \<^verbatim>\<open>oled_draw_circle_outline\<close>: the midpoint loop with its eight calls in the
  order of the source. \<^verbatim>\<open>center_x + x\<close> is an \<^verbatim>\<open>int\<close> converted to \<^verbatim>\<open>uint8_t\<close>
  at the call.
\<close>

function circle_loop :: "oled_device \<Rightarrow> u8 \<Rightarrow> u8 \<Rightarrow> bool \<Rightarrow> int \<Rightarrow> int \<Rightarrow> int \<Rightarrow> oled_device" where
  "circle_loop device center_x center_y border_color x y decision_param =
     (if x \<le> y then
        let d1 = oled_draw_pixel device (word_of_int (uint center_x + x)) (word_of_int (uint center_y + y)) border_color;
            d2 = oled_draw_pixel d1 (word_of_int (uint center_x + y)) (word_of_int (uint center_y + x)) border_color;
            d3 = oled_draw_pixel d2 (word_of_int (uint center_x - x)) (word_of_int (uint center_y + y)) border_color;
            d4 = oled_draw_pixel d3 (word_of_int (uint center_x - y)) (word_of_int (uint center_y + x)) border_color;
            d5 = oled_draw_pixel d4 (word_of_int (uint center_x + x)) (word_of_int (uint center_y - y)) border_color;
            d6 = oled_draw_pixel d5 (word_of_int (uint center_x + y)) (word_of_int (uint center_y - x)) border_color;
            d7 = oled_draw_pixel d6 (word_of_int (uint center_x - x)) (word_of_int (uint center_y - y)) border_color;
            d8 = oled_draw_pixel d7 (word_of_int (uint center_x - y)) (word_of_int (uint center_y - x)) border_color;
            x' = x + 1
        in if decision_param < 0
           then circle_loop d8 center_x center_y border_color x' y (decision_param + (2 * x' + 1))
           else circle_loop d8 center_x center_y border_color x' (y - 1)
                  (decision_param + (2 * (x' - (y - 1)) + 1))
      else device)"
  by pat_completeness auto
termination
  by (relation "measure (\<lambda>(device, center_x, center_y, border_color, x, y, decision_param). nat (y - x + 1))") auto

declare circle_loop.simps [simp del]

definition oled_draw_circle_outline :: "oled_device \<Rightarrow> u8 \<Rightarrow> u8 \<Rightarrow> u8 \<Rightarrow> bool \<Rightarrow> oled_device" where
  "oled_draw_circle_outline device center_x center_y radius border_color =
     circle_loop device center_x center_y border_color 0 (uint radius) (1 - uint radius)"

section \<open>Text\<close>






section \<open>Contrast and effects\<close>

definition oled_adjust_brightness :: "oled_device \<Rightarrow> platform \<Rightarrow> u8 \<Rightarrow> oled_device \<times> platform" where
  "oled_adjust_brightness device p brightness_level =
     (let d1 = device\<lparr>contrast_level := brightness_level\<rparr>;
          (_, d2, p1) = transmit_command d1 p CMD_SET_BRIGHTNESS;
          (_, d3, p2) = transmit_command d2 p1 brightness_level
      in (d3, p2))"

text \<open>
  \<^verbatim>\<open>oled_fade_effect\<close>: \<^verbatim>\<open>i * 255 / steps\<close> is \<^verbatim>\<open>int\<close> arithmetic on values between
  0 and 4845, converted to \<^verbatim>\<open>uint8_t\<close>; \<^verbatim>\<open>duration_ms / steps\<close> is unsigned 32-bit
  division.
\<close>

definition fade_step :: "bool \<Rightarrow> nat \<Rightarrow> nat \<Rightarrow> int \<Rightarrow> oled_device \<times> platform \<Rightarrow> oled_device \<times> platform" where
  "fade_step fade_in steps step_delay i dp =
     (let brightness = (word_of_int (if fade_in then i * 255 div int steps
                                     else 255 - i * 255 div int steps) :: u8);
          (d1, p1) = oled_adjust_brightness (fst dp) (snd dp) brightness
      in (d1, sleep_ms p1 step_delay))"

definition oled_fade_effect :: "oled_device \<Rightarrow> platform \<Rightarrow> bool \<Rightarrow> 32 word \<Rightarrow> oled_device \<times> platform" where
  "oled_fade_effect device p fade_in duration_ms =
     (let steps = (20 :: nat);
          step_delay = unat duration_ms div steps;
          (d1, p1) = fold (\<lambda>i. fade_step fade_in steps step_delay (int i)) [0 ..< steps] (device, p)
      in if fade_in then oled_adjust_brightness d1 p1 (contrast_level d1)
         else (d1, p1))"

text \<open>
  \<^verbatim>\<open>oled_horizontal_scroll\<close>: one pass of the page and column loops, reading from
  the copy taken by \<^verbatim>\<open>memcpy\<close>; then the loop over \<^verbatim>\<open>distance_pixels\<close>.
\<close>

definition scroll_buffer :: "bool \<Rightarrow> u8 list \<Rightarrow> u8 list" where
  "scroll_buffer scroll_left video =
     (let backup_buffer = take OLED_VIDEO_BUFFER_SIZE video in
      fold (\<lambda>page vm.
         fold (\<lambda>col vm'.
            let src_col = (if scroll_left then (int col + 1) mod int OLED_SCREEN_WIDTH
                           else (int col - 1 + int OLED_SCREEN_WIDTH) mod int OLED_SCREEN_WIDTH)
            in vm'[page * OLED_SCREEN_WIDTH + col := backup_buffer ! (page * OLED_SCREEN_WIDTH + nat src_col)])
           [0 ..< OLED_SCREEN_WIDTH] vm)
        [0 ..< OLED_MEMORY_PAGES] video)"

fun scroll_loop :: "nat \<Rightarrow> bool \<Rightarrow> nat \<Rightarrow> oled_device \<Rightarrow> platform \<Rightarrow> oled_device \<times> platform" where
  "scroll_loop 0 scroll_left speed_ms device p = (device, p)"
| "scroll_loop (Suc n) scroll_left speed_ms device p =
     (let d1 = device\<lparr>video_memory := scroll_buffer scroll_left (video_memory device)\<rparr>;
          (_, d2, p1) = oled_refresh_screen d1 p;
          p2 = sleep_ms p1 speed_ms
      in scroll_loop n scroll_left speed_ms d2 p2)"

definition oled_horizontal_scroll ::
  "oled_device \<Rightarrow> platform \<Rightarrow> bool \<Rightarrow> 16 word \<Rightarrow> 16 word \<Rightarrow> oled_device \<times> platform" where
  "oled_horizontal_scroll device p scroll_left speed_ms distance_pixels =
     scroll_loop (unat distance_pixels) scroll_left (unat speed_ms) device p"

section \<open>Sample inputs\<close>

text \<open>
  Concrete devices, transports and a glyph table on which the theorems below
  are instantiated. \<open>ideal_bus\<close> accepts every frame in full, \<open>dead_bus\<close>
  rejects every frame with an error code, and on both every allocation succeeds.
  \<open>block_font\<close> draws every character as the same 6x8 pattern.
\<close>

definition blank_device :: oled_device where
  "blank_device =
     \<lparr>i2c_interface = 0, device_address = 0x3C, screen_width = 128, screen_height = 64,
      video_memory = replicate OLED_VIDEO_BUFFER_SIZE 0x00, power_state = True,
      contrast_level = OLED_DEFAULT_BRIGHTNESS, inverted_colors = False\<rparr>"

definition ideal_bus :: platform where
  "ideal_bus =
     \<lparr>respond = (\<lambda>sent (bus, addr, bytes). int (length bytes)), wire = [],
      heap_ok = (\<lambda>n. True), allocs = 0, slept_ms = 0\<rparr>"

definition dead_bus :: platform where
  "dead_bus =
     \<lparr>respond = (\<lambda>sent frame. - 2), wire = [],
      heap_ok = (\<lambda>n. True), allocs = 0, slept_ms = 0\<rparr>"


section \<open>Auxiliary notions for the proofs\<close>

text \<open>
  \<open>scroll_shift k i\<close> is the buffer index \<open>k\<close> columns to the right of index
  \<open>i\<close> on the same page, wrapping at the page's end.
\<close>

definition scroll_shift :: "nat \<Rightarrow> nat \<Rightarrow> nat" where
  "scroll_shift k i = (i div 128) * 128 + (i mod 128 + k) mod 128"

text \<open>
  \<open>on_screen\<close> is the bounds test of the pixel routines. \<open>octant_points\<close> lists
  the eight coordinate pairs one pass of the circle loop hands to
  \<^verbatim>\<open>oled_draw_pixel\<close>, in 8-bit arithmetic. \<open>grown d0 d\<close> says that \<open>d\<close> has every
  pixel of \<open>d0\<close> still on; \<open>reflected cx cy d0 d\<close> says that every pixel on in \<open>d\<close>
  and off in \<open>d0\<close> has its mirror image through \<open>(cx, cy)\<close> on in \<open>d\<close>, provided
  the image is on the screen.
\<close>

definition on_screen :: "u8 \<Rightarrow> u8 \<Rightarrow> bool" where
  "on_screen x y = (unat x < 128 \<and> unat y < 64)"

definition octant_points :: "u8 \<Rightarrow> u8 \<Rightarrow> u8 \<Rightarrow> u8 \<Rightarrow> (u8 \<times> u8) list" where
  "octant_points cx cy wx wy =
     [(cx + wx, cy + wy), (cx + wy, cy + wx), (cx - wx, cy + wy), (cx - wy, cy + wx),
      (cx + wx, cy - wy), (cx + wy, cy - wx), (cx - wx, cy - wy), (cx - wy, cy - wx)]"

definition grown :: "oled_device \<Rightarrow> oled_device \<Rightarrow> bool" where
  "grown d0 d = (\<forall>px py. oled_read_pixel d0 px py \<longrightarrow> oled_read_pixel d px py)"

definition reflected :: "u8 \<Rightarrow> u8 \<Rightarrow> oled_device \<Rightarrow> oled_device \<Rightarrow> bool" where
  "reflected cx cy d0 d =
     (\<forall>px py. oled_read_pixel d px py \<longrightarrow> \<not> oled_read_pixel d0 px py \<longrightarrow>
        on_screen (2 * cx - px) (2 * cy - py) \<longrightarrow> oled_read_pixel d (2 * cx - px) (2 * cy - py))"




section \<open>Pixel access: bit-level facts\<close>

lemma bit_test_u8: "((w :: u8) AND 2 ^ n \<noteq> 0) = bit w n"
  by (simp add: and_exp_eq_0_iff_not_bit)

lemma bit_set_u8: "n < 8 \<Longrightarrow> bit ((w :: u8) OR 2 ^ n) m = (bit w m \<or> m = n)"
  by (auto simp add: bit_simps)

lemma bit_clear_u8: "bit ((w :: u8) AND NOT (2 ^ n)) m = (bit w m \<and> m \<noteq> n)"
  by (auto simp add: bit_simps dest: bit_imp_le_length)

lemma unat_and7: "unat ((y :: u8) AND 0x07) = unat y mod 8"
proof -
  have "y AND 0x07 = take_bit 3 y" by (simp add: take_bit_eq_mask mask_eq_exp_minus_1)
  then show ?thesis by (simp add: take_bit_eq_mod unat_mod)
qed

lemma unat_drop3: "unat (drop_bit 3 (y :: u8)) = unat y div 8"
  by (simp add: drop_bit_eq_div unat_div)

lemma pixel_index_inj:
  fixes x x' :: nat
  assumes "x < 128" "x' < 128" "x + p * 128 = x' + p' * 128"
  shows "x = x' \<and> p = p'"
proof -
  have "(x + p * 128) mod 128 = (x' + p' * 128) mod 128"
    using assms(3) by simp
  then have "x = x'" using assms(1,2) by simp
  then show ?thesis using assms(3) by simp
qed

lemma pixel_index_bound:
  fixes x y :: nat
  assumes "x < 128" "y < 64"
  shows "x + y div 8 * 128 < 1024"
proof -
  have "y div 8 \<le> 7" using assms by linarith
  then have "y div 8 * 128 \<le> 7 * 128" by (rule mult_le_mono1)
  then show ?thesis using assms by linarith
qed

lemma read_pixel_bit:
  "oled_read_pixel d x y =
     (unat x < 128 \<and> unat y < 64 \<and> bit (video_memory d ! pixel_index x y) (unat y mod 8))"
  unfolding oled_read_pixel_def Let_def unat_drop3 unat_and7 pixel_index_def push_bit_of_1 bit_test_u8
  by auto

lemma draw_pixel_mem:
  "video_memory (oled_draw_pixel d x y c) =
     (if unat x < 128 \<and> unat y < 64
      then (video_memory d)[pixel_index x y :=
             (if c then video_memory d ! pixel_index x y OR 2 ^ (unat y mod 8)
              else video_memory d ! pixel_index x y AND NOT (2 ^ (unat y mod 8)))]
      else video_memory d)"
  unfolding oled_draw_pixel_def Let_def unat_drop3 unat_and7 pixel_index_def push_bit_of_1
  by auto

lemma unat_split8:
  fixes y y' :: u8
  assumes "unat y div 8 = unat y' div 8" "unat y mod 8 = unat y' mod 8"
  shows "y = y'"
proof -
  have "unat y = 8 * (unat y div 8) + unat y mod 8" by simp
  also have "\<dots> = 8 * (unat y' div 8) + unat y' mod 8" using assms by simp
  also have "\<dots> = unat y'" by simp
  finally show ?thesis by (simp add: word_unat_eq_iff)
qed

lemma read_draw_pixel:
  assumes "device_ok d"
  shows "oled_read_pixel (oled_draw_pixel d x y c) x' y' =
     (if x' = x \<and> y' = y \<and> unat x < OLED_SCREEN_WIDTH \<and> unat y < OLED_SCREEN_HEIGHT then c
      else oled_read_pixel d x' y')"
proof (cases "unat x < 128 \<and> unat y < 64 \<and> unat x' < 128 \<and> unat y' < 64")
  case False
  then show ?thesis
    by (auto simp add: read_pixel_bit draw_pixel_mem)
next
  case True
  have len: "pixel_index x y < length (video_memory d)"
    using True assms pixel_index_bound[of "unat x" "unat y"]
    by (simp add: device_ok_def pixel_index_def)
  have m8: "unat y mod 8 < 8" by simp
  show ?thesis
  proof (cases "pixel_index x y = pixel_index x' y'")
    case False
    then show ?thesis using True
      by (auto simp add: read_pixel_bit draw_pixel_mem)
  next
    case same: True
    then have xx: "unat x = unat x'" and pp: "unat y div 8 = unat y' div 8"
      using True pixel_index_inj[of "unat x" "unat x'" "unat y div 8" "unat y' div 8"]
      by (auto simp add: pixel_index_def)
    have xeq: "x = x'" using xx by (simp add: word_unat_eq_iff)
    have yy: "(y' = y) = (unat y' mod 8 = unat y mod 8)"
      using unat_split8[of y' y] pp by auto
    show ?thesis using True len same xeq yy m8
      by (simp add: read_pixel_bit draw_pixel_mem bit_set_u8 bit_clear_u8)
  qed
qed

lemma draw_pixel_ok: "device_ok d \<Longrightarrow> device_ok (oled_draw_pixel d x y c)"
  by (simp add: device_ok_def draw_pixel_mem)

lemma blank_device_ok: "device_ok blank_device"
  by (simp add: device_ok_def blank_device_def)

section \<open>Transport\<close>

lemma transmit_command_device: "fst (snd (transmit_command d p c)) = d"
  by (simp add: transmit_command_def i2c_write_blocking_def Let_def)

lemma transmit_command_platform:
  "snd (snd (transmit_command d p c)) =
     p\<lparr>wire := wire p @ [(i2c_interface d, device_address d, [0x00, c])]\<rparr>"
  by (simp add: transmit_command_def i2c_write_blocking_def Let_def)

lemma transmit_command_sequence_eq:
  "transmit_command_sequence d p cs =
     (d, p\<lparr>wire := wire p @ map (\<lambda>c. (i2c_interface d, device_address d, [0x00, c])) cs\<rparr>)"
proof (induction cs arbitrary: p)
  case Nil
  show ?case by simp
next
  case (Cons c cs)
  obtain r d' p' where t: "transmit_command d p c = (r, d', p')"
    by (cases "transmit_command d p c") auto
  have d': "d' = d" using transmit_command_device[of d p c] t by simp
  have p': "p' = p\<lparr>wire := wire p @ [(i2c_interface d, device_address d, [0x00, c])]\<rparr>"
    using transmit_command_platform[of d p c] t by simp
  show ?case using Cons.IH[of p'] by (simp add: t d' p')
qed

lemma refresh_eq:
  "oled_refresh_screen d p =
     (let frames = map (\<lambda>c. (i2c_interface d, device_address d, [0x00, c])) display_window_config;
          data = (i2c_interface d, device_address d, 0x40 # take 1024 (video_memory d))
      in if heap_ok p (allocs p)
         then (respond p (wire p @ frames) data = 1025, d,
               p\<lparr>wire := wire p @ frames @ [data], allocs := allocs p + 1\<rparr>)
         else (False, d, p\<lparr>wire := wire p @ frames, allocs := allocs p + 1\<rparr>))"
  by (simp add: oled_refresh_screen_def transmit_command_sequence_eq transfer_video_data_def
      i2c_write_blocking_def Let_def)

section \<open>Pixel round trip, bounds and refresh\<close>

text \<open>
  Claim C6. For every in-range coordinate pair and every prior buffer content,
  reading a pixel right after setting it returns the written value:
  \<^verbatim>\<open>oled_read_pixel\<close> after \<^verbatim>\<open>oled_draw_pixel(x, y, true)\<close> is true, and after
  \<^verbatim>\<open>oled_draw_pixel(x, y, false)\<close> it is false.
\<close>

theorem read_after_draw:
  assumes "device_ok d" and "unat x < OLED_SCREEN_WIDTH" and "unat y < OLED_SCREEN_HEIGHT"
  shows "oled_read_pixel (oled_draw_pixel d x y True) x y = True \<and>
         oled_read_pixel (oled_draw_pixel d x y False) x y = False"
  using assms by (simp add: read_draw_pixel)

text \<open>The statement of C6 at pixel (5, 9) of the blank device.\<close>

theorem read_after_draw_witness:
  "device_ok blank_device \<and> unat (5 :: u8) < OLED_SCREEN_WIDTH \<and> unat (9 :: u8) < OLED_SCREEN_HEIGHT \<and>
   oled_read_pixel (oled_draw_pixel blank_device 5 9 True) 5 9 = True \<and>
   oled_read_pixel (oled_draw_pixel blank_device 5 9 False) 5 9 = False"
proof -
  have h: "device_ok blank_device" "unat (5 :: u8) < OLED_SCREEN_WIDTH" "unat (9 :: u8) < OLED_SCREEN_HEIGHT"
    by (simp_all add: blank_device_ok)
  from read_after_draw[OF h] h show ?thesis by simp
qed

text \<open>
  Claim C7. For every out-of-range coordinate pair (\<open>x \<ge> width\<close> or
  \<open>y \<ge> height\<close>) and every buffer content, \<^verbatim>\<open>oled_draw_pixel\<close> leaves the device,
  and so the framebuffer, unchanged, and \<^verbatim>\<open>oled_read_pixel\<close> returns false.
\<close>

theorem out_of_range_pixel:
  assumes "unat x \<ge> OLED_SCREEN_WIDTH \<or> unat y \<ge> OLED_SCREEN_HEIGHT"
  shows "oled_draw_pixel d x y on = d \<and> oled_read_pixel d x y = False"
  using assms by (auto simp add: oled_draw_pixel_def oled_read_pixel_def)

text \<open>The statement of C7 at the first column past the right edge.\<close>

theorem out_of_range_pixel_witness:
  "(unat (128 :: u8) \<ge> OLED_SCREEN_WIDTH \<or> unat (3 :: u8) \<ge> OLED_SCREEN_HEIGHT) \<and>
   oled_draw_pixel blank_device 128 3 True = blank_device \<and>
   oled_read_pixel blank_device 128 3 = False"
proof -
  have h: "unat (128 :: u8) \<ge> OLED_SCREEN_WIDTH \<or> unat (3 :: u8) \<ge> OLED_SCREEN_HEIGHT" by simp
  from out_of_range_pixel[OF h, of blank_device True] h show ?thesis by simp
qed

text \<open>
  Claim C10. \<^verbatim>\<open>oled_refresh_screen\<close> never modifies the framebuffer: whatever the
  transport answers and whether or not the allocation succeeds, \<^verbatim>\<open>video_memory\<close>
  after the call equals \<^verbatim>\<open>video_memory\<close> before it.
\<close>

theorem refresh_keeps_framebuffer:
  "video_memory (fst (snd (oled_refresh_screen d p))) = video_memory d"
  by (simp add: refresh_eq Let_def)

text \<open>
  Claim C4. The bulk data frame of \<^verbatim>\<open>oled_refresh_screen\<close> is the data control byte
  followed by the whole framebuffer, \<open>width * height / 8 + 1\<close> bytes; it is sent
  after the six window commands, and the routine returns true exactly when the
  transport reports that count for it. When the staging buffer cannot be
  allocated no data frame is sent and the routine returns false.
\<close>

theorem refresh_transfer:
  assumes "device_ok d"
  shows "case oled_refresh_screen d p of (ok, d', p') \<Rightarrow>
     (let window = map (\<lambda>c. (i2c_interface d, device_address d, [OLED_CMD_CONTROL_BYTE, c]))
                     display_window_config;
          frame = (i2c_interface d, device_address d, OLED_DATA_CONTROL_BYTE # video_memory d);
          reply = respond p (wire p @ window) frame
      in length (snd (snd frame)) = OLED_SCREEN_WIDTH * OLED_SCREEN_HEIGHT div 8 + 1 \<and>
         (if heap_ok p (allocs p)
          then wire p' = wire p @ window @ [frame] \<and>
               ok = (reply = int (OLED_SCREEN_WIDTH * OLED_SCREEN_HEIGHT div 8 + 1))
          else wire p' = wire p @ window \<and> ok = False))"
  using assms by (simp add: refresh_eq Let_def device_ok_def)

text \<open>The statement of C4 for the blank device on a transport that accepts everything.\<close>

theorem refresh_transfer_witness:
  "device_ok blank_device \<and>
   (case oled_refresh_screen blank_device ideal_bus of (ok, d', p') \<Rightarrow>
      ok = True \<and> length (wire p') = 7 \<and> length (snd (snd (last (wire p')))) = 1025)"
proof -
  have h: "device_ok blank_device" by (rule blank_device_ok)
  from refresh_transfer[OF h, of ideal_bus] show ?thesis
    by (simp add: device_ok_def Let_def ideal_bus_def blank_device_def display_window_config_def
        split: prod.splits)
qed

section \<open>Contrast fade and initialisation\<close>

lemma adjust_brightness_eq:
  "oled_adjust_brightness d p b =
     (d\<lparr>contrast_level := b\<rparr>,
      p\<lparr>wire := wire p @ [(i2c_interface d, device_address d, [0x00, CMD_SET_BRIGHTNESS]),
                          (i2c_interface d, device_address d, [0x00, b])]\<rparr>)"
  by (simp add: oled_adjust_brightness_def transmit_command_def i2c_write_blocking_def Let_def)

lemma fade_step_contrast:
  "contrast_level (fst (fade_step fade_in steps step_delay i dp)) =
     word_of_int (if fade_in then i * 255 div int steps else 255 - i * 255 div int steps)"
  by (simp add: fade_step_def adjust_brightness_eq Let_def)

lemma fade_in_last_ramp_value:
  "contrast_level (fst (oled_fade_effect d p True duration_ms)) = 0xF2"
proof -
  have split: "[0 ..< 20 :: nat] = [0 ..< 19] @ [19]" by (simp add: upt_rec)
  obtain d1 p1 where f: "fold (\<lambda>i. fade_step True 20 (unat duration_ms div 20) (int i)) [0 ..< 20] (d, p) = (d1, p1)"
    by (cases "fold (\<lambda>i. fade_step True 20 (unat duration_ms div 20) (int i)) [0 ..< 20] (d, p)") auto
  have "contrast_level d1 = 0xF2"
    using f fade_step_contrast[of True 20 "unat duration_ms div 20" 19
        "fold (\<lambda>i. fade_step True 20 (unat duration_ms div 20) (int i)) [0 ..< 19] (d, p)"]
    unfolding split by simp
  then show ?thesis
    by (simp add: oled_fade_effect_def f adjust_brightness_eq Let_def)
qed

lemma fade_in_last_command:
  "last (wire (snd (oled_fade_effect d p True duration_ms))) =
     (i2c_interface (fst (oled_fade_effect d p True duration_ms)),
      device_address (fst (oled_fade_effect d p True duration_ms)), [0x00, 0xF2])"
proof -
  have split: "[0 ..< 20 :: nat] = [0 ..< 19] @ [19]" by (simp add: upt_rec)
  obtain d1 p1 where f: "fold (\<lambda>i. fade_step True 20 (unat duration_ms div 20) (int i)) [0 ..< 20] (d, p) = (d1, p1)"
    by (cases "fold (\<lambda>i. fade_step True 20 (unat duration_ms div 20) (int i)) [0 ..< 20] (d, p)") auto
  have "contrast_level d1 = 0xF2"
    using f fade_step_contrast[of True 20 "unat duration_ms div 20" 19
        "fold (\<lambda>i. fade_step True 20 (unat duration_ms div 20) (int i)) [0 ..< 19] (d, p)"]
    unfolding split by simp
  then show ?thesis
    by (simp add: oled_fade_effect_def f adjust_brightness_eq Let_def)
qed

text \<open>
  Claim C1 says that after \<^verbatim>\<open>oled_fade_effect\<close> with \<^verbatim>\<open>fade_in = true\<close> the commanded
  and the stored contrast are the level stored before the fade. The code does
  otherwise: every ramp step goes through \<^verbatim>\<open>oled_adjust_brightness\<close>, which
  overwrites \<^verbatim>\<open>contrast_level\<close>, so the closing
  \<^verbatim>\<open>oled_adjust_brightness(device, device->contrast_level)\<close> re-sends the last ramp
  value \<open>19 * 255 / 20 = 242\<close>. On a device holding the default 0xCF, a 500 ms
  fade-in ends with \<^verbatim>\<open>contrast_level\<close> 0xF2 and with 0xF2 as the last byte commanded.
\<close>

theorem fade_in_keeps_last_ramp_value:
  "contrast_level blank_device = 0xCF \<and>
   contrast_level (fst (oled_fade_effect blank_device ideal_bus True 500)) = 0xF2 \<and>
   snd (snd (last (wire (snd (oled_fade_effect blank_device ideal_bus True 500))))) = [0x00, 0xF2]"
  by (simp add: fade_in_last_ramp_value fade_in_last_command blank_device_def)

lemma initialize_returns_true: "fst (oled_initialize_display d p bus addr) = True"
  by (simp add: oled_initialize_display_def Let_def split: prod.splits)

text \<open>
  Claim C2 says that \<^verbatim>\<open>oled_initialize_display\<close> returns false whenever a command
  of the startup sequence is not accepted. The code does otherwise: on a
  transport that rejects every frame the call still sends the whole sequence
  and returns true.
\<close>

theorem initialize_ignores_failed_commands:
  "(\<forall>sent frame. respond dead_bus sent frame \<noteq> 2) \<and>
   (case oled_initialize_display blank_device dead_bus 0 0x3C of (ok, d', p') \<Rightarrow>
      ok = True \<and>
      wire p' = map (\<lambda>c. (0, 0x3C, [OLED_CMD_CONTROL_BYTE, c])) startup_sequence)"
  by (simp add: oled_initialize_display_def Let_def transmit_command_sequence_eq
      oled_clear_screen_def blank_device_def dead_bus_def startup_sequence_def)

section \<open>Horizontal scroll\<close>

lemma fold_update_range_length:
  "length (fold (\<lambda>c v. v[b + c := g c]) [0 ..< n] xs) = length xs"
  by (induction n) simp_all

lemma fold_update_range_nth:
  assumes "k < length xs"
  shows "fold (\<lambda>c v. v[b + c := g c]) [0 ..< n] xs ! k =
           (if b \<le> k \<and> k < b + n then g (k - b) else xs ! k)"
  using assms
proof (induction n)
  case 0
  then show ?case by auto
next
  case (Suc n)
  have len: "k < length (fold (\<lambda>c v. v[b + c := g c]) [0 ..< n] xs)"
    using Suc.prems by (simp add: fold_update_range_length)
  show ?case
  proof (cases "k = b + n")
    case True
    then show ?thesis using len by simp
  next
    case False
    then show ?thesis using Suc len by (auto simp add: nth_list_update)
  qed
qed

lemma src_col_nat:
  "nat (if scroll_left then (int col + 1) mod int 128 else (int col - 1 + int 128) mod int 128) =
    (if scroll_left then (col + 1) mod 128 else (col + 127) mod 128)"
proof -
  have a: "nat ((int col + 1) mod 128) = (col + 1) mod 128"
    by (metis nat_int of_nat_1 of_nat_add of_nat_mod of_nat_numeral)
  have "int col - 1 + 128 = int (col + 127)" by simp
  then have b: "nat ((int col - 1 + 128) mod 128) = (col + 127) mod 128"
    by (metis nat_int of_nat_mod of_nat_numeral)
  show ?thesis using a b by simp
qed

lemma page_split:
  fixes k m :: nat
  assumes "m * 128 \<le> k" "k < m * 128 + 128"
  shows "k div 128 = m \<and> k mod 128 = k - m * 128"
proof -
  obtain r where r: "k = m * 128 + r" "r < 128"
    using assms by (metis add_diff_inverse_nat nat_add_left_cancel_less not_less)
  show ?thesis using r by simp
qed

lemma scroll_pages_length:
  "length (fold (\<lambda>page vm. fold (\<lambda>col vm'. vm'[page * 128 + col := h page col]) [0 ..< 128] vm)
     [0 ..< m] xs) = length xs"
  by (induction m) (simp_all add: fold_update_range_length)

lemma scroll_pages_nth:
  assumes "k < length xs"
  shows "fold (\<lambda>page vm. fold (\<lambda>col vm'. vm'[page * 128 + col := h page col]) [0 ..< 128] vm)
            [0 ..< m] xs ! k =
         (if k < m * 128 then h (k div 128) (k mod 128) else xs ! k)"
  using assms
proof (induction m)
  case 0
  then show ?case by simp
next
  case (Suc m)
  let ?prev = "fold (\<lambda>page vm. fold (\<lambda>col vm'. vm'[page * 128 + col := h page col]) [0 ..< 128] vm) [0 ..< m] xs"
  have len: "k < length ?prev" using Suc.prems by (simp add: scroll_pages_length)
  have step: "fold (\<lambda>page vm. fold (\<lambda>col vm'. vm'[page * 128 + col := h page col]) [0 ..< 128] vm) [0 ..< Suc m] xs ! k =
      (if m * 128 \<le> k \<and> k < m * 128 + 128 then h m (k - m * 128) else ?prev ! k)"
    using fold_update_range_nth[OF len, of "m * 128" "h m" 128] by simp
  show ?case
  proof (cases "m * 128 \<le> k \<and> k < m * 128 + 128")
    case True
    then show ?thesis using step page_split[of m k] by simp
  next
    case False
    then show ?thesis using step Suc.IH[OF Suc.prems] by auto
  qed
qed

lemma scroll_buffer_length:
  "length (scroll_buffer scroll_left xs) = length xs"
  by (simp add: scroll_buffer_def Let_def scroll_pages_length)

lemma scroll_buffer_nth:
  assumes "length xs = 1024" "i < 1024"
  shows "scroll_buffer scroll_left xs ! i = xs ! scroll_shift (if scroll_left then 1 else 127) i"
proof -
  have "scroll_buffer scroll_left xs ! i =
      (if i < 8 * 128 then xs ! (i div 128 * 128 + nat (if scroll_left then (int (i mod 128) + 1) mod int 128 else (int (i mod 128) - 1 + int 128) mod int 128)) else xs ! i)"
    unfolding scroll_buffer_def Let_def
    using scroll_pages_nth[of i xs "\<lambda>page col. xs ! (page * 128 + nat (if scroll_left then (int col + 1) mod int 128 else (int col - 1 + int 128) mod int 128))" 8] assms
    by simp
  then show ?thesis using assms(2) unfolding src_col_nat scroll_shift_def by simp
qed


lemma scroll_shift_div_mod:
  "scroll_shift k i div 128 = i div 128 \<and> scroll_shift k i mod 128 = (i mod 128 + k) mod 128"
proof -
  define r where "r = (i mod 128 + k) mod 128"
  have r: "r < 128" by (simp add: r_def)
  have "(i div 128 * 128 + r) div 128 = i div 128" using r by simp
  moreover have "(i div 128 * 128 + r) mod 128 = r" using r by simp
  ultimately show ?thesis by (simp add: scroll_shift_def r_def)
qed

lemma scroll_shift_lt:
  assumes "i < 1024"
  shows "scroll_shift k i < 1024"
proof -
  have "i div 128 \<le> 7" using assms by linarith
  then have "i div 128 * 128 \<le> 7 * 128" by (rule mult_le_mono1)
  moreover have "(i mod 128 + k) mod 128 < 128" by simp
  ultimately show ?thesis unfolding scroll_shift_def by linarith
qed

lemma scroll_shift_add: "scroll_shift a (scroll_shift b i) = scroll_shift (b + a) i"
proof -
  have "scroll_shift a (scroll_shift b i) =
          (i div 128) * 128 + ((i mod 128 + b) mod 128 + a) mod 128"
    using scroll_shift_div_mod[of b i] by (simp add: scroll_shift_def[of a])
  also have "((i mod 128 + b) mod 128 + a) mod 128 = (i mod 128 + (b + a)) mod 128"
    by (simp add: mod_add_left_eq add.assoc)
  finally show ?thesis by (simp add: scroll_shift_def[of "b + a"])
qed

lemma scroll_shift_full: "scroll_shift (128 * m) i = i"
  by (simp add: scroll_shift_def)

lemma scroll_iter_length: "length ((scroll_buffer scroll_left ^^ n) xs) = length xs"
  by (induction n) (simp_all add: scroll_buffer_length)

lemma scroll_iter_nth:
  assumes "length xs = 1024" "i < 1024"
  shows "((scroll_buffer scroll_left ^^ n) xs) ! i =
           xs ! scroll_shift (n * (if scroll_left then 1 else 127)) i"
  using assms(2)
proof (induction n arbitrary: i)
  case 0
  show ?case using scroll_shift_full[of 0 i] by simp
next
  case (Suc n)
  let ?s = "if scroll_left then 1 else 127 :: nat"
  have len: "length ((scroll_buffer scroll_left ^^ n) xs) = 1024"
    using assms(1) by (simp add: scroll_iter_length)
  have "((scroll_buffer scroll_left ^^ Suc n) xs) ! i =
          ((scroll_buffer scroll_left ^^ n) xs) ! scroll_shift ?s i"
    using scroll_buffer_nth[OF len Suc.prems, of scroll_left] by simp
  also have "\<dots> = xs ! scroll_shift (n * ?s) (scroll_shift ?s i)"
    using Suc.IH[OF scroll_shift_lt[OF Suc.prems]] by simp
  also have "scroll_shift (n * ?s) (scroll_shift ?s i) = scroll_shift (Suc n * ?s) i"
    by (simp add: scroll_shift_add)
  finally show ?case .
qed

lemma scroll_loop_memory:
  "video_memory (fst (scroll_loop n scroll_left speed_ms d p)) =
     (scroll_buffer scroll_left ^^ n) (video_memory d)"
proof (induction n arbitrary: d p)
  case 0
  show ?case by simp
next
  case (Suc n)
  show ?case
    by (simp add: refresh_eq Let_def Suc.IH funpow_swap1 split: prod.splits)
qed

text \<open>
  Claim C5. For every framebuffer content and either direction,
  \<^verbatim>\<open>oled_horizontal_scroll\<close> with \<^verbatim>\<open>distance_pixels\<close> equal to the screen width leaves
  the framebuffer byte for byte as it was, whatever the transport does during
  the refreshes.
\<close>

theorem scroll_full_width_identity:
  assumes "device_ok d"
  shows "video_memory (fst (oled_horizontal_scroll d p scroll_left speed_ms (of_nat OLED_SCREEN_WIDTH)))
           = video_memory d"
proof -
  have len: "length (video_memory d) = 1024" using assms by (simp add: device_ok_def)
  have "(scroll_buffer scroll_left ^^ 128) (video_memory d) = video_memory d"
  proof (rule nth_equalityI)
    show "length ((scroll_buffer scroll_left ^^ 128) (video_memory d)) = length (video_memory d)"
      by (rule scroll_iter_length)
  next
    fix i assume "i < length ((scroll_buffer scroll_left ^^ 128) (video_memory d))"
    then have i: "i < 1024" using len by (simp add: scroll_iter_length)
    show "(scroll_buffer scroll_left ^^ 128) (video_memory d) ! i = video_memory d ! i"
      using scroll_iter_nth[OF len i, where scroll_left = scroll_left and n = 128]
        scroll_shift_full[of "if scroll_left then 1 else 127" i]
      by simp
  qed
  then show ?thesis
    by (simp add: oled_horizontal_scroll_def scroll_loop_memory)
qed

text \<open>The statement of C5 for a buffer with one pixel set, scrolled left.\<close>

theorem scroll_full_width_identity_witness:
  "device_ok (oled_draw_pixel blank_device 5 9 True) \<and>
   video_memory (fst (oled_horizontal_scroll (oled_draw_pixel blank_device 5 9 True) ideal_bus True 0
                        (of_nat OLED_SCREEN_WIDTH)))
     = video_memory (oled_draw_pixel blank_device 5 9 True)"
proof -
  have h: "device_ok (oled_draw_pixel blank_device 5 9 True)"
    by (rule draw_pixel_ok[OF blank_device_ok])
  from scroll_full_width_identity[OF h] h show ?thesis by simp
qed

section \<open>Line segments\<close>








section \<open>Circle outline\<close>

lemma fold_draw_ok:
  "device_ok d \<Longrightarrow> device_ok (fold (\<lambda>(x, y) dev. oled_draw_pixel dev x y c) pts d)"
  by (induction pts arbitrary: d) (auto simp add: draw_pixel_ok)

lemma read_fold_draw_on:
  assumes "device_ok d"
  shows "oled_read_pixel (fold (\<lambda>(x, y) dev. oled_draw_pixel dev x y True) pts d) px py =
           (oled_read_pixel d px py \<or> ((px, py) \<in> set pts \<and> on_screen px py))"
  using assms
proof (induction pts arbitrary: d)
  case Nil
  show ?case by simp
next
  case (Cons pt pts)
  obtain x y where pt: "pt = (x, y)" by (cases pt)
  have ok: "device_ok (oled_draw_pixel d x y True)" using Cons.prems by (rule draw_pixel_ok)
  show ?case
    using Cons.IH[OF ok] read_draw_pixel[OF Cons.prems, of x y True px py]
    by (auto simp add: pt on_screen_def)
qed

lemma reflect_plus: "2 * (c :: u8) - (c + w) = c - w"
  by simp

lemma reflect_minus: "2 * (c :: u8) - (c - w) = c + w"
  by simp

lemma octant_points_reflect:
  assumes "(px, py) \<in> set (octant_points cx cy wx wy)"
  shows "(2 * cx - px, 2 * cy - py) \<in> set (octant_points cx cy wx wy)"
proof -
  from assms consider
      "px = cx + wx" "py = cy + wy" | "px = cx + wy" "py = cy + wx"
    | "px = cx - wx" "py = cy + wy" | "px = cx - wy" "py = cy + wx"
    | "px = cx + wx" "py = cy - wy" | "px = cx + wy" "py = cy - wx"
    | "px = cx - wx" "py = cy - wy" | "px = cx - wy" "py = cy - wx"
    unfolding octant_points_def by fastforce
  then show ?thesis
    by cases (simp_all only: reflect_plus reflect_minus octant_points_def list.set insert_iff simp_thms)
qed

lemma circle_loop_unfold:
  "circle_loop d cx cy c x y dp =
     (if x \<le> y then
        let d8 = fold (\<lambda>(px, py) dev. oled_draw_pixel dev px py c)
                   (octant_points cx cy (word_of_int x) (word_of_int y)) d
        in if dp < 0 then circle_loop d8 cx cy c (x + 1) y (dp + (2 * (x + 1) + 1))
           else circle_loop d8 cx cy c (x + 1) (y - 1) (dp + (2 * (x + 1 - (y - 1)) + 1))
      else d)"
  by (subst circle_loop.simps) (simp add: Let_def octant_points_def)


lemma octant_step:
  assumes ok: "device_ok d" and g: "grown d0 d" and r: "reflected cx cy d0 d"
    and d8_def: "d8 = fold (\<lambda>(px, py) dev. oled_draw_pixel dev px py True) (octant_points cx cy wx wy) d"
  shows "device_ok d8 \<and> grown d0 d8 \<and> reflected cx cy d0 d8"
proof (intro conjI)
  note rd = read_fold_draw_on[OF ok, of "octant_points cx cy wx wy"]
  show "device_ok d8" unfolding d8_def using ok by (rule fold_draw_ok)
  show "grown d0 d8" using g unfolding grown_def d8_def rd by blast
  show "reflected cx cy d0 d8"
    unfolding reflected_def
  proof (intro allI impI)
    fix px py
    assume on: "oled_read_pixel d8 px py" and off: "\<not> oled_read_pixel d0 px py"
      and scr: "on_screen (2 * cx - px) (2 * cy - py)"
    from on consider "oled_read_pixel d px py" | "(px, py) \<in> set (octant_points cx cy wx wy)"
      unfolding d8_def rd by blast
    then show "oled_read_pixel d8 (2 * cx - px) (2 * cy - py)"
    proof cases
      case 1
      then have "oled_read_pixel d (2 * cx - px) (2 * cy - py)"
        using r off scr unfolding reflected_def by blast
      then show ?thesis unfolding d8_def rd by blast
    next
      case 2
      then show ?thesis unfolding d8_def rd using octant_points_reflect scr by blast
    qed
  qed
qed

lemma circle_loop_reflected:
  assumes "device_ok d" "grown d0 d" "reflected cx cy d0 d"
  shows "device_ok (circle_loop d cx cy True x y dp) \<and> grown d0 (circle_loop d cx cy True x y dp) \<and>
         reflected cx cy d0 (circle_loop d cx cy True x y dp)"
  using assms
proof (induction "nat (y - x + 1)" arbitrary: d x y dp rule: less_induct)
  case less
  show ?case
  proof (cases "x \<le> y")
    case False
    then show ?thesis using less.prems by (simp add: circle_loop_unfold)
  next
    case True
    define d8 where "d8 = fold (\<lambda>(px, py) dev. oled_draw_pixel dev px py True)
        (octant_points cx cy (word_of_int x) (word_of_int y)) d"
    have d8: "device_ok d8" "grown d0 d8" "reflected cx cy d0 d8"
      using octant_step[OF less.prems d8_def] by simp_all
    show ?thesis
    proof (cases "dp < 0")
      case neg: True
      have m: "nat (y - (x + 1) + 1) < nat (y - x + 1)" using True by simp
      have "circle_loop d cx cy True x y dp = circle_loop d8 cx cy True (x + 1) y (dp + (2 * (x + 1) + 1))"
        using True neg by (subst circle_loop_unfold) (simp add: d8_def)
      then show ?thesis using less.hyps[OF m d8] by simp
    next
      case pos: False
      have m: "nat (y - 1 - (x + 1) + 1) < nat (y - x + 1)" using True by simp
      have "circle_loop d cx cy True x y dp =
              circle_loop d8 cx cy True (x + 1) (y - 1) (dp + (2 * (x + 1 - (y - 1)) + 1))"
        using True pos by (subst circle_loop_unfold) (simp add: d8_def)
      then show ?thesis using less.hyps[OF m d8] by simp
    qed
  qed
qed

text \<open>
  Claim C3, amended. For every centre, radius and prior buffer, every pixel
  \<open>(px, py)\<close> that \<^verbatim>\<open>oled_draw_circle_outline\<close> turns on and whose counterpart
  \<open>(2cx - px, 2cy - py)\<close>, in the driver's 8-bit coordinates, lies on the screen
  has that counterpart on after the call.
\<close>

theorem circle_outline_reflection:
  assumes "device_ok d"
    and "oled_read_pixel (oled_draw_circle_outline d cx cy r True) px py"
    and "\<not> oled_read_pixel d px py"
    and "unat (2 * cx - px) < OLED_SCREEN_WIDTH" and "unat (2 * cy - py) < OLED_SCREEN_HEIGHT"
  shows "oled_read_pixel (oled_draw_circle_outline d cx cy r True) (2 * cx - px) (2 * cy - py)"
proof -
  have "grown d d" "reflected cx cy d d" by (simp_all add: grown_def reflected_def)
  from circle_loop_reflected[OF assms(1) this, of 0 "uint r" "1 - uint r"]
  have "reflected cx cy d (oled_draw_circle_outline d cx cy r True)"
    by (simp add: oled_draw_circle_outline_def)
  then show ?thesis using assms(2-) by (simp add: reflected_def on_screen_def)
qed

text \<open>The amended C3 for the circle of radius 1 around (10, 10) on the blank device.\<close>

theorem circle_outline_reflection_witness:
  "device_ok blank_device \<and>
   oled_read_pixel (oled_draw_circle_outline blank_device 10 10 1 True) 10 11 \<and>
   \<not> oled_read_pixel blank_device 10 11 \<and>
   unat (2 * 10 - 10 :: u8) < OLED_SCREEN_WIDTH \<and> unat (2 * 10 - 11 :: u8) < OLED_SCREEN_HEIGHT \<and>
   oled_read_pixel (oled_draw_circle_outline blank_device 10 10 1 True) (2 * 10 - 10) (2 * 10 - 11)"
proof -
  have h1: "device_ok blank_device" by (rule blank_device_ok)
  have h2: "oled_read_pixel (oled_draw_circle_outline blank_device 10 10 1 True) 10 11" by code_simp
  have h3: "\<not> oled_read_pixel blank_device 10 11" by code_simp
  have h4: "unat (2 * 10 - 10 :: u8) < OLED_SCREEN_WIDTH" by simp
  have h5: "unat (2 * 10 - 11 :: u8) < OLED_SCREEN_HEIGHT" by simp
  from circle_outline_reflection[OF h1 h2 h3 h4 h5] h1 h2 h3 h4 h5 show ?thesis by blast
qed

text \<open>
  Claim C3 as stated fails where the circle leaves the screen: around (0, 0)
  with radius 1 the pixel (0, 1) is turned on, while its counterpart (0, -1),
  which reaches \<^verbatim>\<open>oled_draw_pixel\<close> as row 255, is rejected by the bounds guard
  and is not on.
\<close>

theorem circle_outline_clipped_counterexample:
  "oled_read_pixel (oled_draw_circle_outline blank_device 0 0 1 True) 0 1 \<and>
   \<not> oled_read_pixel blank_device 0 1 \<and>
   \<not> oled_read_pixel (oled_draw_circle_outline blank_device 0 0 1 True) (2 * 0 - 0) (2 * 0 - 1)"
  by code_simp

section \<open>Highlighted text\<close>



























end
